theory Spec2Isabelle
  imports Main "HOL-Library.Word"
begin

section \<open>Python values, errors and strings\<close>

text \<open>
  The validators of \<^verbatim>\<open>types/common.py\<close> take a \<^verbatim>\<open>str\<close>, a \<^verbatim>\<open>bytes\<close> or a
  \<^verbatim>\<open>HexBytes\<close> (a subclass of \<^verbatim>\<open>bytes\<close>); anything else reaches the
  \<^verbatim>\<open>TypeError\<close> branch. \<open>POther\<close> carries the text of \<^verbatim>\<open>type(v)\<close> that the message
  shows. A Python \<^verbatim>\<open>str\<close> is modelled as a \<open>string\<close>, one \<open>char\<close> per code point
  (code points below 256).
\<close>

type_synonym byte = "8 word"

datatype pyval = PStr string | PBytes "byte list" | PHexBytes "byte list" | POther string

datatype error = TypeError string | ValueError string | OverflowError

definition startswith :: "string \<Rightarrow> string \<Rightarrow> bool" where
  "startswith s p = (take (length p) s = p)"

subsection \<open>\<^verbatim>\<open>bytes.hex()\<close>\<close>

definition hex_digit :: "nat \<Rightarrow> char" where
  "hex_digit n = ''0123456789abcdef'' ! (n mod 16)"

definition byte_hex :: "byte \<Rightarrow> string" where
  "byte_hex b = [hex_digit (unat b div 16), hex_digit (unat b mod 16)]"

definition bytes_hex :: "byte list \<Rightarrow> string" where
  "bytes_hex bs = concat (map byte_hex bs)"

text \<open>
  \<^verbatim>\<open>HexBytes.hex()\<close> returns the digits with a \<^verbatim>\<open>0x\<close> prefix in hexbytes before 1.0
  and without it from 1.0 on; the source is written for both (it tests
  \<^verbatim>\<open>startswith("0x")\<close> afterwards), so the installed behaviour is the parameter \<open>hp\<close>.
\<close>

definition hexbytes_hex :: "bool \<Rightarrow> byte list \<Rightarrow> string" where
  "hexbytes_hex hp bs = (if hp then ''0x'' @ bytes_hex bs else bytes_hex bs)"

text \<open>
  The first two statements of each validator:
  \<^verbatim>\<open>if isinstance(v, HexBytes | bytes): v = v.hex()\<close> and
  \<^verbatim>\<open>if not isinstance(v, str): raise TypeError(...)\<close>.
\<close>

definition bytes_to_str :: "bool \<Rightarrow> pyval \<Rightarrow> error + string" where
  "bytes_to_str hp v =
     (case v of
        PStr s \<Rightarrow> Inr s
      | PBytes bs \<Rightarrow> Inr (bytes_hex bs)
      | PHexBytes bs \<Rightarrow> Inr (hexbytes_hex hp bs)
      | POther ty \<Rightarrow> Inl (TypeError (''Expected string or bytes, got '' @ ty)))"

subsection \<open>\<^verbatim>\<open>str(n)\<close> for an integer\<close>

definition dec_digit :: "nat \<Rightarrow> char" where
  "dec_digit n = ''0123456789'' ! (n mod 10)"

fun str_nat :: "nat \<Rightarrow> string" where
  "str_nat n = (if n < 10 then [dec_digit n] else str_nat (n div 10) @ [dec_digit (n mod 10)])"

declare str_nat.simps [simp del]

definition str_int :: "int \<Rightarrow> string" where
  "str_int i = (if i < 0 then CHR ''-'' # str_nat (nat (- i)) else str_nat (nat i))"

section \<open>The two compiled patterns\<close>

text \<open>
  \<^verbatim>\<open>KECCAK256_REGEX = re.compile(r"^0x[a-fA-F0-9]{64}$")\<close> and
  \<^verbatim>\<open>CHECKSUM_ADDRESS_REGEX = re.compile(r"^0x[a-fA-F0-9]{40}$", re.IGNORECASE)\<close>
  use four kinds of atoms: the anchors, a literal character and a character set repeated a
  fixed number of times. \<^verbatim>\<open>re.match\<close> anchors the match at the start of the string and
  does not ask that the pattern consumes all of it. Without \<^verbatim>\<open>re.MULTILINE\<close>, \<^verbatim>\<open>^\<close>
  matches at the start of the string only, and \<^verbatim>\<open>$\<close> matches at the end of the string
  and also just before a newline that is the last character of the string. Under
  \<^verbatim>\<open>re.IGNORECASE\<close> a character matches when it or its other case does; for the
  characters of these two patterns only the ASCII letters have another case.
\<close>

datatype re_atom = Caret | Dollar | Lit char | SetN "char list" nat

definition lower_char :: "char \<Rightarrow> char" where
  "lower_char c =
     (let n = (of_char c :: nat)
      in if 65 \<le> n \<and> n \<le> 90 then char_of (n + 32) else c)"

definition upper_char :: "char \<Rightarrow> char" where
  "upper_char c =
     (let n = (of_char c :: nat)
      in if 97 \<le> n \<and> n \<le> 122 then char_of (n - 32) else c)"

definition char_matches :: "bool \<Rightarrow> char list \<Rightarrow> char \<Rightarrow> bool" where
  "char_matches ic cs c =
     (if ic then c \<in> set cs \<or> lower_char c \<in> set cs \<or> upper_char c \<in> set cs
      else c \<in> set cs)"

fun re_match_from :: "bool \<Rightarrow> re_atom list \<Rightarrow> bool \<Rightarrow> string \<Rightarrow> bool" where
  "re_match_from ic [] st s = True"
| "re_match_from ic (Caret # p) st s = (st \<and> re_match_from ic p st s)"
| "re_match_from ic (Dollar # p) st s =
     ((s = [] \<or> s = [CHR 0x0A]) \<and> re_match_from ic p st s)"
| "re_match_from ic (Lit c # p) st s =
     (case s of [] \<Rightarrow> False
      | d # r \<Rightarrow> char_matches ic [c] d \<and> re_match_from ic p False r)"
| "re_match_from ic (SetN cs n # p) st s =
     (n \<le> length s \<and> list_all (char_matches ic cs) (take n s)
      \<and> re_match_from ic p (st \<and> n = 0) (drop n s))"

definition re_match :: "bool \<Rightarrow> re_atom list \<Rightarrow> string \<Rightarrow> bool" where
  "re_match ic p s = re_match_from ic p True s"

definition hex_class :: "char list" where
  "hex_class = ''abcdefABCDEF0123456789''"

definition KECCAK256_REGEX :: "re_atom list" where
  "KECCAK256_REGEX = [Caret, Lit CHR ''0'', Lit CHR ''x'', SetN hex_class 64, Dollar]"

definition CHECKSUM_ADDRESS_REGEX :: "re_atom list" where
  "CHECKSUM_ADDRESS_REGEX = [Caret, Lit CHR ''0'', Lit CHR ''x'', SetN hex_class 40, Dollar]"

section \<open>The validators\<close>

definition validate_keccak256 :: "bool \<Rightarrow> pyval \<Rightarrow> error + string" where
  "validate_keccak256 hp v =
     (case bytes_to_str hp v of
        Inl e \<Rightarrow> Inl e
      | Inr s \<Rightarrow>
          (let s' = (if \<not> startswith s ''0x'' then ''0x'' @ s else s)
           in if \<not> re_match False KECCAK256_REGEX s'
              then Inl (ValueError (''Invalid Keccak256 hash format: '' @ s'))
              else Inr s'))"

definition validate_eth_address :: "bool \<Rightarrow> pyval \<Rightarrow> error + string" where
  "validate_eth_address hp v =
     (case bytes_to_str hp v of
        Inl e \<Rightarrow> Inl e
      | Inr s \<Rightarrow>
          (let s' = (if \<not> startswith s ''0x'' then ''0x'' @ s else s)
           in if \<not> re_match True CHECKSUM_ADDRESS_REGEX s'
              then Inl (ValueError (''Invalid Ethereum address format: '' @ s'))
              else Inr s'))"

definition validate_keccak_or_padded :: "bool \<Rightarrow> pyval \<Rightarrow> error + string" where
  "validate_keccak_or_padded hp v =
     (case bytes_to_str hp v of
        Inl e \<Rightarrow> Inl e
      | Inr s \<Rightarrow>
          (let v_str = (if \<not> startswith s ''0x'' then ''0x'' @ s else s)
           in if length v_str = 66
                 \<and> list_all (\<lambda>c. c \<in> set ''0123456789abcdefABCDEF'') (drop 2 v_str)
              then Inr v_str
              else Inl (ValueError
                     (''Invalid hash format: expected 66 characters (0x + 64 hex), got ''
                      @ str_nat (length v_str) @ '': '' @ v_str))))"

section \<open>The key holder\<close>

text \<open>
  \<^verbatim>\<open>class Signer\<close> of \<^verbatim>\<open>utilities/signing/signer.py\<close> keeps the private key, the
  \<^verbatim>\<open>LocalAccount\<close> made from it and the chain id. Of the account only the address is
  read (\<^verbatim>\<open>Signer.address\<close>), a 20-byte value.

  The packages \<^verbatim>\<open>eth_account\<close>, \<^verbatim>\<open>eth_utils\<close>, \<^verbatim>\<open>hexbytes\<close>,
  \<^verbatim>\<open>poly_eip712_structs\<close> and \<^verbatim>\<open>py_order_utils\<close> are imported by the source and are
  not part of it. The cryptographic primitives are parameters of the model:
  \<^item> \<open>from_key\<close>: \<^verbatim>\<open>Account.from_key\<close>, the address of the account, or the error it raises
    for a malformed key;
  \<^item> \<open>keccak\<close>: \<^verbatim>\<open>eth_utils.crypto.keccak\<close>, from bytes to a 256-bit value;
  \<^item> \<open>ecdsa\<close>: the signing primitive under \<^verbatim>\<open>Account.unsafe_sign_hash\<close>, from the key and
    the 32-byte digest to \<open>(r, s, v)\<close>.
\<close>

record signer =
  private_key :: string
  account :: "160 word"
  chain_id :: int

definition Signer_init ::
  "(string \<Rightarrow> error + 160 word) \<Rightarrow> string option \<Rightarrow> int option \<Rightarrow> error + signer" where
  "Signer_init from_key pk cid =
     (case pk of
        None \<Rightarrow> Inl (ValueError ''private_key must not be None'')
      | Some k \<Rightarrow>
          (case cid of
             None \<Rightarrow> Inl (ValueError ''chain_id must not be None'')
           | Some c \<Rightarrow>
               (case from_key k of
                  Inl e \<Rightarrow> Inl e
                | Inr a \<Rightarrow> Inr \<lparr>private_key = k, account = a, chain_id = c\<rparr>)))"

definition address :: "signer \<Rightarrow> 160 word" where
  "address sg = account sg"

definition get_chain_id :: "signer \<Rightarrow> int" where
  "get_chain_id sg = chain_id sg"

subsection \<open>Bytes, big-endian integers and hex text\<close>

fun be_bytes :: "nat \<Rightarrow> nat \<Rightarrow> byte list" where
  "be_bytes 0 x = []"
| "be_bytes (Suc k) x = be_bytes k (x div 256) @ [of_nat (x mod 256)]"

definition word_bytes32 :: "256 word \<Rightarrow> byte list" where
  "word_bytes32 w = be_bytes 32 (unat w)"

text \<open>
  The texts that are hashed (the two type signatures, the domain name and version, the
  decimal timestamp and the message) are ASCII, where UTF-8 is one byte per character.
\<close>

definition utf8 :: "string \<Rightarrow> byte list" where
  "utf8 s = map (\<lambda>c. of_nat (of_char c)) s"

definition hex_val :: "char \<Rightarrow> nat option" where
  "hex_val c =
     (let n = (of_char c :: nat)
      in if 48 \<le> n \<and> n \<le> 57 then Some (n - 48)
         else if 97 \<le> n \<and> n \<le> 102 then Some (n - 87)
         else if 65 \<le> n \<and> n \<le> 70 then Some (n - 55)
         else None)"

fun unhexlify :: "string \<Rightarrow> byte list option" where
  "unhexlify [] = Some []"
| "unhexlify [c] = None"
| "unhexlify (c # d # r) =
     (case hex_val c of None \<Rightarrow> None
      | Some h \<Rightarrow>
          (case hex_val d of None \<Rightarrow> None
           | Some l \<Rightarrow>
               (case unhexlify r of None \<Rightarrow> None
                | Some bs \<Rightarrow> Some (of_nat (16 * h + l) # bs))))"

text \<open>
  Modelled from the spec: \<^verbatim>\<open>HexBytes(hexstr)\<close> of the hexbytes package, which reads the
  digest text back into the "32-byte value" that \<^verbatim>\<open>sign\<close> takes: an optional
  \<^verbatim>\<open>0x\<close>/\<^verbatim>\<open>0X\<close> prefix is dropped, an odd number of characters is padded with a
  leading zero, and the digits are decoded two per byte.
\<close>

definition hexstr_to_bytes :: "string \<Rightarrow> byte list option" where
  "hexstr_to_bytes hexstr =
     (let non_prefixed = (if startswith hexstr ''0x'' \<or> startswith hexstr ''0X''
                          then drop 2 hexstr else hexstr);
          padded = (if odd (length hexstr) then CHR ''0'' # non_prefixed else non_prefixed)
      in unhexlify padded)"

text \<open>
  Modelled from the spec: \<^verbatim>\<open>prepend_zx\<close> of \<^verbatim>\<open>py_order_utils.utils\<close>, the step
  "returns the hex-encoded signature, 0x-prefixed": the prefix is added to a text longer
  than two characters that does not start with it.
\<close>

definition prepend_zx :: "string \<Rightarrow> string" where
  "prepend_zx in_str = (if 2 < length in_str \<and> take 2 in_str \<noteq> ''0x'' then ''0x'' @ in_str else in_str)"

text \<open>
  Modelled from the spec: \<^verbatim>\<open>Account.unsafe_sign_hash\<close> of eth_account, "sign(digest: 32-byte
  value) -> Signature ... returns the 65-byte r, s, v encoding ... never re-hashes its
  input ... passing a digest of incorrect length is a FormatError". The result is the
  \<^verbatim>\<open>signature\<close> field of the \<^verbatim>\<open>SignedMessage\<close>.
\<close>

definition sig_bytes :: "256 word \<times> 256 word \<times> byte \<Rightarrow> byte list" where
  "sig_bytes rsv = (case rsv of (r, s, v) \<Rightarrow> word_bytes32 r @ word_bytes32 s @ [v])"

definition unsafe_sign_hash ::
  "(string \<Rightarrow> byte list \<Rightarrow> 256 word \<times> 256 word \<times> byte) \<Rightarrow> string \<Rightarrow> string
     \<Rightarrow> error + byte list" where
  "unsafe_sign_hash ecdsa message_hash pk =
     (case hexstr_to_bytes message_hash of
        None \<Rightarrow> Inl (ValueError ''Non-hexadecimal digit found'')
      | Some d \<Rightarrow>
          if length d \<noteq> 32 then Inl (ValueError ''The message hash must be exactly 32-bytes'')
          else Inr (sig_bytes (ecdsa pk d)))"

definition sign ::
  "bool \<Rightarrow> (string \<Rightarrow> byte list \<Rightarrow> 256 word \<times> 256 word \<times> byte) \<Rightarrow> signer \<Rightarrow> string
     \<Rightarrow> error + string" where
  "sign hp ecdsa sg message_hash =
     (case unsafe_sign_hash ecdsa message_hash (private_key sg) of
        Inl e \<Rightarrow> Inl e
      | Inr signature \<Rightarrow> Inr (hexbytes_hex hp signature))"

section \<open>EIP-712 structures\<close>

text \<open>
  \<^verbatim>\<open>utilities/signing/model.py\<close> declares \<^verbatim>\<open>ClobAuth\<close> with the members
  \<^verbatim>\<open>address = Address()\<close>, \<^verbatim>\<open>timestamp = String()\<close>, \<^verbatim>\<open>nonce = Uint()\<close>,
  \<^verbatim>\<open>message = String()\<close>, in this order. A member is its type together with the value
  stored for it; a structure is its type name and its named members in declaration order.
\<close>

datatype eip712_member = Address "160 word" | String string | Uint int

type_synonym eip712_struct = "string \<times> (string \<times> eip712_member) list"

text \<open>
  Modelled from the spec: the encoder of \<^verbatim>\<open>poly_eip712_structs\<close> (\<^verbatim>\<open>EIP712Struct\<close>,
  \<^verbatim>\<open>make_domain\<close>), section 4.3. The type signature is the type name followed by the
  parenthesised, comma-separated "type name" pairs in declaration order, and the type hash
  is its Keccak-256. An address is left-padded to 32 bytes, a string member is hashed, an
  unsigned integer is 32 bytes big-endian (none exists outside of \<open>0 \<le> n < 2^256\<close>, where
  the conversion raises). The hash of a structure is the Keccak-256 of the type hash
  followed by the encoded members, and the signable bytes are \<^verbatim>\<open>0x1901\<close>, the hash of
  the domain and the hash of the structure.
\<close>

definition type_name :: "eip712_member \<Rightarrow> string" where
  "type_name m = (case m of Address _ \<Rightarrow> ''address'' | String _ \<Rightarrow> ''string'' | Uint _ \<Rightarrow> ''uint256'')"

fun join :: "string \<Rightarrow> string list \<Rightarrow> string" where
  "join sep [] = []"
| "join sep [x] = x"
| "join sep (x # y # ys) = x @ sep @ join sep (y # ys)"

definition encode_type :: "eip712_struct \<Rightarrow> string" where
  "encode_type st =
     fst st @ ''('' @ join '','' (map (\<lambda>(name, m). type_name m @ '' '' @ name) (snd st)) @ '')''"

definition type_hash :: "(byte list \<Rightarrow> 256 word) \<Rightarrow> eip712_struct \<Rightarrow> 256 word" where
  "type_hash keccak st = keccak (utf8 (encode_type st))"

definition encode_member :: "(byte list \<Rightarrow> 256 word) \<Rightarrow> eip712_member \<Rightarrow> error + byte list" where
  "encode_member keccak m =
     (case m of
        Address a \<Rightarrow> Inr (be_bytes 32 (unat a))
      | String s \<Rightarrow> Inr (word_bytes32 (keccak (utf8 s)))
      | Uint n \<Rightarrow> if 0 \<le> n \<and> n < 2 ^ 256 then Inr (be_bytes 32 (nat n)) else Inl OverflowError)"

fun encode_members :: "(byte list \<Rightarrow> 256 word) \<Rightarrow> (string \<times> eip712_member) list \<Rightarrow> error + byte list" where
  "encode_members keccak [] = Inr []"
| "encode_members keccak ((name, m) # ms) =
     (case encode_member keccak m of
        Inl e \<Rightarrow> Inl e
      | Inr b \<Rightarrow>
          (case encode_members keccak ms of
             Inl e \<Rightarrow> Inl e
           | Inr bs \<Rightarrow> Inr (b @ bs)))"

definition hash_struct :: "(byte list \<Rightarrow> 256 word) \<Rightarrow> eip712_struct \<Rightarrow> error + 256 word" where
  "hash_struct keccak st =
     (case encode_members keccak (snd st) of
        Inl e \<Rightarrow> Inl e
      | Inr bs \<Rightarrow> Inr (keccak (word_bytes32 (type_hash keccak st) @ bs)))"

definition signable_bytes ::
  "(byte list \<Rightarrow> 256 word) \<Rightarrow> eip712_struct \<Rightarrow> eip712_struct \<Rightarrow> error + byte list" where
  "signable_bytes keccak st domain =
     (case hash_struct keccak domain of
        Inl e \<Rightarrow> Inl e
      | Inr d \<Rightarrow>
          (case hash_struct keccak st of
             Inl e \<Rightarrow> Inl e
           | Inr h \<Rightarrow> Inr ([0x19, 0x01] @ word_bytes32 d @ word_bytes32 h)))"

definition make_domain :: "string \<Rightarrow> string \<Rightarrow> int \<Rightarrow> eip712_struct" where
  "make_domain name version chainId =
     (''EIP712Domain'',
      [(''name'', String name), (''version'', String version), (''chainId'', Uint chainId)])"

section \<open>The authentication message\<close>

definition CLOB_DOMAIN_NAME :: string where
  "CLOB_DOMAIN_NAME = ''ClobAuthDomain''"

definition CLOB_VERSION :: string where
  "CLOB_VERSION = ''1''"

definition MSG_TO_SIGN :: string where
  "MSG_TO_SIGN = ''This message attests that I control the given wallet''"

definition ClobAuth :: "160 word \<Rightarrow> string \<Rightarrow> int \<Rightarrow> string \<Rightarrow> eip712_struct" where
  "ClobAuth addr timestamp nonce message =
     (''ClobAuth'',
      [(''address'', Address addr), (''timestamp'', String timestamp),
       (''nonce'', Uint nonce), (''message'', String message)])"

definition get_clob_auth_domain :: "int \<Rightarrow> eip712_struct" where
  "get_clob_auth_domain cid = make_domain CLOB_DOMAIN_NAME CLOB_VERSION cid"

definition sign_clob_auth_message ::
  "bool \<Rightarrow> (byte list \<Rightarrow> 256 word) \<Rightarrow> (string \<Rightarrow> byte list \<Rightarrow> 256 word \<times> 256 word \<times> byte)
     \<Rightarrow> signer \<Rightarrow> int \<Rightarrow> int \<Rightarrow> error + string" where
  "sign_clob_auth_message hp keccak ecdsa sg timestamp nonce =
     (let clob_auth_msg = ClobAuth (address sg) (str_int timestamp) nonce MSG_TO_SIGN;
          cid = get_chain_id sg
      in case signable_bytes keccak clob_auth_msg (get_clob_auth_domain cid) of
           Inl e \<Rightarrow> Inl e
         | Inr sb \<Rightarrow>
             (let auth_struct_hash = prepend_zx (bytes_hex (word_bytes32 (keccak sb)))
              in case sign hp ecdsa sg auth_struct_hash of
                   Inl e \<Rightarrow> Inl e
                 | Inr sg_hex \<Rightarrow> Inr (prepend_zx sg_hex)))"

section \<open>The balance of a position\<close>

text \<open>
  \<^verbatim>\<open>GQLPosition._parse_balance\<close> of \<^verbatim>\<open>types/data_types.py\<close> is the validator that runs
  on the raw \<^verbatim>\<open>balance\<close> of a record before the field is read as a \<^verbatim>\<open>float\<close>:
  \<^verbatim>\<open>if isinstance(value, str): value = int(value)\<close> and then
  \<^verbatim>\<open>return value / 10**6\<close>. The raw value is a text or a number, and a number is an
  \<^verbatim>\<open>int\<close> or a \<^verbatim>\<open>float\<close>. The floats are a type parameter, and Python's true division
  of a number by an integer is the parameter \<open>truediv\<close>: it returns the float, or the
  error the division raises (\<^verbatim>\<open>OverflowError\<close> for a quotient beyond the floats).
\<close>

datatype 'f pynum = PInt int | PFloat 'f

datatype 'f balance_value = BStr string | BNum "'f pynum"

text \<open>
  \<^verbatim>\<open>int(s)\<close> for a text, in base 10: whitespace around the number is skipped, one sign may
  precede the digits, the digits may be separated by single underscores, and anything
  else raises \<^verbatim>\<open>ValueError\<close>. The whitespace characters are those below code point 256.
  The interpreter's limit on the number of digits of a conversion is a setting of the
  interpreter and is not part of the model.
\<close>

definition is_space :: "char \<Rightarrow> bool" where
  "is_space c =
     ((of_char c :: nat) \<in> set [9, 10, 11, 12, 13, 28, 29, 30, 31, 32, 133, 160])"

definition is_digit :: "char \<Rightarrow> bool" where
  "is_digit c = (48 \<le> (of_char c :: nat) \<and> (of_char c :: nat) \<le> 57)"

definition digit_val :: "char \<Rightarrow> nat" where
  "digit_val c = of_char c - 48"

fun valid_digits :: "string \<Rightarrow> bool" where
  "valid_digits [] = False"
| "valid_digits [c] = is_digit c"
| "valid_digits (c # d # r) =
     (is_digit c \<and> (if d = CHR ''_'' then valid_digits r else valid_digits (d # r)))"

definition py_int :: "string \<Rightarrow> error + int" where
  "py_int s =
     (let t = dropWhile is_space s;
          neg = (case t of [] \<Rightarrow> False | c # r \<Rightarrow> c = CHR ''-'');
          u = (case t of [] \<Rightarrow> t
               | c # r \<Rightarrow> if c = CHR ''-'' \<or> c = CHR ''+'' then r else t);
          ds = takeWhile (\<lambda>c. is_digit c \<or> c = CHR ''_'') u;
          rest = dropWhile (\<lambda>c. is_digit c \<or> c = CHR ''_'') u
      in if valid_digits ds \<and> list_all is_space rest
         then (let n = int (foldl (\<lambda>a c. 10 * a + digit_val c) 0 (filter is_digit ds))
               in Inr (if neg then - n else n))
         else Inl (ValueError (''invalid literal for int() with base 10: '' @ s)))"

definition parse_balance ::
  "('f pynum \<Rightarrow> int \<Rightarrow> error + 'f) \<Rightarrow> 'f balance_value \<Rightarrow> error + 'f" where
  "parse_balance truediv v =
     (case v of
        BStr s \<Rightarrow>
          (case py_int s of Inl e \<Rightarrow> Inl e | Inr n \<Rightarrow> truediv (PInt n) (10 ^ 6))
      | BNum x \<Rightarrow> truediv x (10 ^ 6))"

section \<open>The statements of the specification\<close>

definition is_hex :: "char \<Rightarrow> bool" where
  "is_hex c = (c \<in> set ''0123456789abcdefABCDEF'')"

text \<open>The hex body of an input text: what follows the optional \<^verbatim>\<open>0x\<close> prefix.\<close>

definition hex_body :: "string \<Rightarrow> string" where
  "hex_body t = (if startswith t ''0x'' then drop 2 t else t)"

text \<open>The prefixing step shared by the three validators.\<close>

definition add_0x :: "string \<Rightarrow> string" where
  "add_0x s = (if \<not> startswith s ''0x'' then ''0x'' @ s else s)"

text \<open>
  The digest as section 4.3 of the specification writes it, for the two fixed schemas:
  the type hashes of the written-out signatures, the domain separator, the hash of the
  authentication structure and the final digest.
\<close>

definition spec_typeHash_Domain :: "(byte list \<Rightarrow> 256 word) \<Rightarrow> 256 word" where
  "spec_typeHash_Domain keccak =
     keccak (utf8 ''EIP712Domain(string name,string version,uint256 chainId)'')"

definition spec_typeHash_AuthStruct :: "(byte list \<Rightarrow> 256 word) \<Rightarrow> 256 word" where
  "spec_typeHash_AuthStruct keccak =
     keccak (utf8 ''ClobAuth(address address,string timestamp,uint256 nonce,string message)'')"

definition spec_domainSeparator :: "(byte list \<Rightarrow> 256 word) \<Rightarrow> int \<Rightarrow> 256 word" where
  "spec_domainSeparator keccak chainId =
     keccak (word_bytes32 (spec_typeHash_Domain keccak)
             @ word_bytes32 (keccak (utf8 ''ClobAuthDomain''))
             @ word_bytes32 (keccak (utf8 ''1''))
             @ be_bytes 32 (nat chainId))"

definition spec_hashStruct ::
  "(byte list \<Rightarrow> 256 word) \<Rightarrow> 160 word \<Rightarrow> string \<Rightarrow> int \<Rightarrow> 256 word" where
  "spec_hashStruct keccak addr timestampString nonce =
     keccak (word_bytes32 (spec_typeHash_AuthStruct keccak)
             @ be_bytes 32 (unat addr)
             @ word_bytes32 (keccak (utf8 timestampString))
             @ be_bytes 32 (nat nonce)
             @ word_bytes32 (keccak
                 (utf8 ''This message attests that I control the given wallet'')))"

definition spec_digest ::
  "(byte list \<Rightarrow> 256 word) \<Rightarrow> signer \<Rightarrow> int \<Rightarrow> int \<Rightarrow> byte list" where
  "spec_digest keccak sg timestamp nonce =
     word_bytes32 (keccak ([0x19, 0x01]
        @ word_bytes32 (spec_domainSeparator keccak (chain_id sg))
        @ word_bytes32 (spec_hashStruct keccak (account sg) (str_int timestamp) nonce)))"

text \<open>
  A decimal-integer text is an optional sign followed by one or more decimal digits; its
  value is read positionally.
\<close>

fun dec_value :: "string \<Rightarrow> nat" where
  "dec_value [] = 0"
| "dec_value (c # r) = digit_val c * 10 ^ length r + dec_value r"



section \<open>Properties of the validators\<close>

lemma startswith_0x_iff: "startswith s ''0x'' \<longleftrightarrow> (\<exists>r. s = CHR ''0'' # CHR ''x'' # r)"
  by (cases s; cases "tl s") (auto simp: startswith_def)

lemma add_0x_shape: "add_0x s = ''0x'' @ hex_body s"
  by (auto simp: add_0x_def hex_body_def startswith_0x_iff)

lemma add_0x_startswith: "startswith (add_0x s) ''0x''"
  by (simp add: add_0x_shape startswith_def)

lemma add_0x_idem: "startswith s ''0x'' \<Longrightarrow> add_0x s = s"
  by (simp add: add_0x_def)

lemma char_matches_hex_class: "char_matches False hex_class = is_hex"
  by (rule ext) (auto simp: char_matches_def hex_class_def is_hex_def)

lemma in_hex_literal: "(\<lambda>c. c \<in> set ''0123456789abcdefABCDEF'') = is_hex"
  by (rule ext) (simp add: is_hex_def)

lemma drop_singleton_length: "drop n xs = [x] \<Longrightarrow> length xs = Suc n"
proof -
  assume "drop n xs = [x]"
  then have "length (drop n xs) = 1" by simp
  then show ?thesis by simp
qed

text \<open>
  What \<^verbatim>\<open>re.match(KECCAK256_REGEX, v)\<close> accepts after the prefix: 64 hex digits, then the
  end of the text or one final newline.
\<close>

lemma keccak_regex_iff:
  "re_match False KECCAK256_REGEX (CHR ''0'' # CHR ''x'' # b) \<longleftrightarrow>
     64 \<le> length b \<and> list_all is_hex (take 64 b)
     \<and> (drop 64 b = [] \<or> drop 64 b = [CHR 0x0A])"
  by (auto simp: re_match_def KECCAK256_REGEX_def char_matches_hex_class char_matches_def)

lemma validate_keccak256_eq:
  "validate_keccak256 hp v =
     (case bytes_to_str hp v of
        Inl e \<Rightarrow> Inl e
      | Inr s \<Rightarrow>
          if re_match False KECCAK256_REGEX (add_0x s) then Inr (add_0x s)
          else Inl (ValueError (''Invalid Keccak256 hash format: '' @ add_0x s)))"
  by (simp add: validate_keccak256_def add_0x_def Let_def split: sum.splits)

lemma validate_eth_address_eq:
  "validate_eth_address hp v =
     (case bytes_to_str hp v of
        Inl e \<Rightarrow> Inl e
      | Inr s \<Rightarrow>
          if re_match True CHECKSUM_ADDRESS_REGEX (add_0x s) then Inr (add_0x s)
          else Inl (ValueError (''Invalid Ethereum address format: '' @ add_0x s)))"
  by (simp add: validate_eth_address_def add_0x_def Let_def split: sum.splits)

lemma validate_keccak_or_padded_eq:
  "validate_keccak_or_padded hp v =
     (case bytes_to_str hp v of
        Inl e \<Rightarrow> Inl e
      | Inr s \<Rightarrow>
          if length (add_0x s) = 66 \<and> list_all is_hex (drop 2 (add_0x s)) then Inr (add_0x s)
          else Inl (ValueError
                 (''Invalid hash format: expected 66 characters (0x + 64 hex), got ''
                  @ str_nat (length (add_0x s)) @ '': '' @ add_0x s)))"
  unfolding validate_keccak_or_padded_def add_0x_def Let_def in_hex_literal
  by (simp split: sum.splits)

lemma validate_eth_address_out:
  assumes "validate_eth_address hp v = Inr s"
  shows "\<exists>t. bytes_to_str hp v = Inr t \<and> s = add_0x t \<and> re_match True CHECKSUM_ADDRESS_REGEX s"
  using assms by (auto simp: validate_eth_address_eq split: sum.splits if_splits)

lemma validate_keccak256_out:
  assumes "validate_keccak256 hp v = Inr s"
  shows "\<exists>t. bytes_to_str hp v = Inr t \<and> s = add_0x t \<and> re_match False KECCAK256_REGEX s"
  using assms by (auto simp: validate_keccak256_eq split: sum.splits if_splits)

lemma bytes_to_str_PStr: "bytes_to_str hp (PStr s) = Inr s"
  by (simp add: bytes_to_str_def)

text \<open>
  The inputs \<^verbatim>\<open>validate_keccak256\<close> accepts, for a text: the hex body is 64 hex digits,
  alone or followed by one newline.
\<close>

lemma validate_keccak256_accepts_iff:
  "(\<exists>s. validate_keccak256 hp (PStr t) = Inr s) \<longleftrightarrow>
     64 \<le> length (hex_body t) \<and> list_all is_hex (take 64 (hex_body t))
     \<and> (drop 64 (hex_body t) = [] \<or> drop 64 (hex_body t) = [CHR 0x0A])"
proof -
  have "(\<exists>s. validate_keccak256 hp (PStr t) = Inr s)
          \<longleftrightarrow> re_match False KECCAK256_REGEX (add_0x t)"
    by (simp add: validate_keccak256_eq bytes_to_str_PStr)
  also have "add_0x t = CHR ''0'' # CHR ''x'' # hex_body t"
    by (simp add: add_0x_shape)
  finally show ?thesis by (simp only: keccak_regex_iff)
qed

text \<open>
  Every input the relaxed validator accepts is accepted by \<^verbatim>\<open>validate_keccak256\<close> with
  the same result; the converse holds for every result that is not 67 characters long.
\<close>

lemma or_padded_implies_keccak256:
  assumes "validate_keccak_or_padded hp v = Inr s"
  shows "validate_keccak256 hp v = Inr s"
proof -
  from assms obtain t where t: "bytes_to_str hp v = Inr t" "s = add_0x t"
     "length s = 66" "list_all is_hex (drop 2 s)"
    by (auto simp: validate_keccak_or_padded_eq split: sum.splits if_splits)
  have s: "s = ''0x'' @ hex_body t" using t(2) by (simp add: add_0x_shape)
  with t(3,4) have "re_match False KECCAK256_REGEX s"
    by (simp add: keccak_regex_iff)
  with t(1,2) show ?thesis by (simp add: validate_keccak256_eq)
qed

lemma keccak256_implies_or_padded:
  assumes "validate_keccak256 hp v = Inr s" and "length s \<noteq> 67"
  shows "validate_keccak_or_padded hp v = Inr s"
proof -
  from assms obtain t where t: "bytes_to_str hp v = Inr t" "s = add_0x t"
     "re_match False KECCAK256_REGEX s"
    by (auto simp: validate_keccak256_eq split: sum.splits if_splits)
  have s: "s = ''0x'' @ hex_body t" using t(2) by (simp add: add_0x_shape)
  from t(3) assms(2) have "length s = 66 \<and> list_all is_hex (drop 2 s)"
    unfolding s by (auto simp: keccak_regex_iff dest: drop_singleton_length)
  with t(1,2) show ?thesis by (simp add: validate_keccak_or_padded_eq)
qed

lemma hex_digit_is_hex: "hex_digit n \<in> set ''0123456789abcdef''"
  unfolding hex_digit_def by (rule nth_mem) simp

lemma hex_digit_not_x: "hex_digit n \<noteq> CHR ''x''"
  using hex_digit_is_hex [of n] by auto

lemma bytes_hex_not_prefixed: "\<not> startswith (bytes_hex bs) ''0x''"
proof (cases bs)
  case Nil
  then show ?thesis by (simp add: bytes_hex_def startswith_def)
next
  case (Cons b r)
  then show ?thesis
    by (simp add: bytes_hex_def byte_hex_def startswith_0x_iff hex_digit_not_x)
qed

lemma hex_body_bytes_hex: "hex_body (bytes_hex bs) = bytes_hex bs"
  by (simp add: hex_body_def bytes_hex_not_prefixed)

lemma hex_body_hexbytes_hex: "hex_body (hexbytes_hex hp bs) = bytes_hex bs"
  by (simp add: hexbytes_hex_def hex_body_bytes_hex) (simp add: hex_body_def startswith_def)

text \<open>
  C1, as the source has it. \<^verbatim>\<open>validate_eth_address\<close> applies no checksum casing: the
  value returned for a valid input starts with \<^verbatim>\<open>0x\<close> and its hex body is the hex body
  of the input with the casing the input has (the lowercase digits of \<^verbatim>\<open>hex()\<close> for
  bytes).
\<close>

theorem validate_eth_address_keeps_casing:
  assumes "validate_eth_address hp v = Inr s"
  shows "startswith s ''0x''
         \<and> (\<forall>t. v = PStr t \<longrightarrow> drop 2 s = hex_body t)
         \<and> (\<forall>bs. v = PBytes bs \<or> v = PHexBytes bs \<longrightarrow> drop 2 s = bytes_hex bs)"
proof -
  from assms obtain u where u: "bytes_to_str hp v = Inr u" "s = add_0x u"
    using validate_eth_address_out by blast
  have body: "drop 2 s = hex_body u" using u(2) by (simp add: add_0x_shape)
  have "startswith s ''0x''" using u(2) by (simp add: add_0x_startswith)
  moreover have "\<forall>t. v = PStr t \<longrightarrow> drop 2 s = hex_body t"
    using u(1) body by (auto simp: bytes_to_str_def)
  moreover have "\<forall>bs. v = PBytes bs \<or> v = PHexBytes bs \<longrightarrow> drop 2 s = bytes_hex bs"
    using u(1) body by (auto simp: bytes_to_str_def hex_body_bytes_hex hex_body_hexbytes_hex)
  ultimately show ?thesis by blast
qed

theorem validate_eth_address_keeps_casing_witness:
  "validate_eth_address False (PStr ''5AAEB6053F3E94C9B9A09F33669435E7EF1BEAED'')
     = Inr ''0x5AAEB6053F3E94C9B9A09F33669435E7EF1BEAED''
   \<and> startswith ''0x5AAEB6053F3E94C9B9A09F33669435E7EF1BEAED'' ''0x''
   \<and> drop 2 ''0x5AAEB6053F3E94C9B9A09F33669435E7EF1BEAED''
       = hex_body ''5AAEB6053F3E94C9B9A09F33669435E7EF1BEAED''"
proof -
  have v: "validate_eth_address False (PStr ''5AAEB6053F3E94C9B9A09F33669435E7EF1BEAED'')
             = Inr ''0x5AAEB6053F3E94C9B9A09F33669435E7EF1BEAED''"
    by code_simp
  from validate_eth_address_keeps_casing [OF v] v show ?thesis by blast
qed

text \<open>
  C1, as the specification states it, fails: the all-lowercase form of the test vector is
  returned as it is, not in the mixed-case checksum form.
\<close>

theorem validate_eth_address_lowercase_counterexample:
  "validate_eth_address False (PStr ''0x5aaeb6053f3e94c9b9a09f33669435e7ef1beaed'')
     = Inr ''0x5aaeb6053f3e94c9b9a09f33669435e7ef1beaed''
   \<and> validate_eth_address False (PStr ''0x5aaeb6053f3e94c9b9a09f33669435e7ef1beaed'')
     \<noteq> Inr ''0x5aAeb6053F3E94C9b9A09f33669435E7Ef1BeAed''"
  by code_simp

text \<open>
  C6 at the failing input. The text \<^verbatim>\<open>0x\<close>, 64 digits \<^verbatim>\<open>a\<close> and a final newline has a
  hex body of 65 characters, the last of them not a hex digit; \<^verbatim>\<open>validate_keccak256\<close>
  accepts it and returns it with the newline.
\<close>

theorem validate_keccak256_trailing_newline:
  "validate_keccak256 False (PStr (''0x'' @ replicate 64 CHR ''a'' @ [CHR 0x0A]))
     = Inr (''0x'' @ replicate 64 CHR ''a'' @ [CHR 0x0A])
   \<and> length (hex_body (''0x'' @ replicate 64 CHR ''a'' @ [CHR 0x0A])) = 65
   \<and> \<not> list_all is_hex (hex_body (''0x'' @ replicate 64 CHR ''a'' @ [CHR 0x0A]))"
  by code_simp

text \<open>
  C7. Both validators are idempotent: applied to a value they returned, they return it
  again.
\<close>

theorem validators_idempotent:
  "(validate_eth_address hp a = Inr s \<longrightarrow> validate_eth_address hp (PStr s) = Inr s) \<and>
   (validate_keccak256 hp h = Inr t \<longrightarrow> validate_keccak256 hp (PStr t) = Inr t)"
proof (intro conjI impI)
  assume "validate_eth_address hp a = Inr s"
  then obtain u where u: "s = add_0x u" "re_match True CHECKSUM_ADDRESS_REGEX s"
    using validate_eth_address_out by blast
  from u(1) have "add_0x s = s" by (simp add: add_0x_idem add_0x_startswith)
  with u(2) show "validate_eth_address hp (PStr s) = Inr s"
    by (simp add: validate_eth_address_eq bytes_to_str_PStr)
next
  assume "validate_keccak256 hp h = Inr t"
  then obtain u where u: "t = add_0x u" "re_match False KECCAK256_REGEX t"
    using validate_keccak256_out by blast
  from u(1) have "add_0x t = t" by (simp add: add_0x_idem add_0x_startswith)
  with u(2) show "validate_keccak256 hp (PStr t) = Inr t"
    by (simp add: validate_keccak256_eq bytes_to_str_PStr)
qed

theorem validators_idempotent_witness:
  "validate_eth_address False (PBytes (replicate 20 0xAB))
     = Inr (''0x'' @ concat (replicate 20 ''ab''))
   \<and> validate_eth_address False (PStr (''0x'' @ concat (replicate 20 ''ab'')))
     = Inr (''0x'' @ concat (replicate 20 ''ab''))
   \<and> validate_keccak256 False (PStr (concat (replicate 32 ''Cd'')))
     = Inr (''0x'' @ concat (replicate 32 ''Cd''))
   \<and> validate_keccak256 False (PStr (''0x'' @ concat (replicate 32 ''Cd'')))
     = Inr (''0x'' @ concat (replicate 32 ''Cd''))"
proof -
  have a: "validate_eth_address False (PBytes (replicate 20 0xAB))
             = Inr (''0x'' @ concat (replicate 20 ''ab''))"
    by code_simp
  have h: "validate_keccak256 False (PStr (concat (replicate 32 ''Cd'')))
             = Inr (''0x'' @ concat (replicate 32 ''Cd''))"
    by code_simp
  from validators_idempotent [of False "PBytes (replicate 20 0xAB)"
         "''0x'' @ concat (replicate 20 ''ab'')" "PStr (concat (replicate 32 ''Cd''))"
         "''0x'' @ concat (replicate 32 ''Cd'')"] a h
  show ?thesis by blast
qed

text \<open>
  C8 at the failing input. \<^verbatim>\<open>validate_keccak256\<close> accepts the text \<^verbatim>\<open>0x\<close>, 64 digits
  \<^verbatim>\<open>a\<close> and a final newline, which is 67 characters long, and
  \<^verbatim>\<open>validate_keccak_or_padded\<close> rejects it.
\<close>

theorem keccak256_or_padded_differ:
  "validate_keccak256 False (PStr (''0x'' @ replicate 64 CHR ''a'' @ [CHR 0x0A]))
     = Inr (''0x'' @ replicate 64 CHR ''a'' @ [CHR 0x0A])
   \<and> validate_keccak_or_padded False (PStr (''0x'' @ replicate 64 CHR ''a'' @ [CHR 0x0A]))
     = Inl (ValueError
         (''Invalid hash format: expected 66 characters (0x + 64 hex), got 67: ''
          @ ''0x'' @ replicate 64 CHR ''a'' @ [CHR 0x0A]))"
  by code_simp

section \<open>Properties of the key holder\<close>

text \<open>
  C9. Construction fails with the \<^verbatim>\<open>ValueError\<close> of the source when the private key is
  \<^verbatim>\<open>None\<close> and when the chain id is \<^verbatim>\<open>None\<close>; with both present and a key that
  \<^verbatim>\<open>Account.from_key\<close> accepts, it succeeds and the signer holds the key and the chain
  id, which no method of the class changes.
\<close>

theorem Signer_init_mandatory:
  "Signer_init from_key None cid = Inl (ValueError ''private_key must not be None'')
   \<and> Signer_init from_key (Some k) None = Inl (ValueError ''chain_id must not be None'')
   \<and> (from_key k = Inr a \<longrightarrow>
        (\<exists>sg. Signer_init from_key (Some k) (Some c) = Inr sg
              \<and> private_key sg = k \<and> chain_id sg = c
              \<and> get_chain_id sg = c \<and> address sg = a))"
  by (simp add: Signer_init_def get_chain_id_def address_def)

theorem Signer_init_mandatory_witness:
  "(\<lambda>k. if length k = 64 then Inr 1 else Inl (ValueError ''bad key'')) (replicate 64 CHR ''1'')
     = (Inr 1 :: error + 160 word)
   \<and> (\<exists>sg. Signer_init (\<lambda>k. if length k = 64 then Inr 1 else Inl (ValueError ''bad key''))
              (Some (replicate 64 CHR ''1'')) (Some 137) = Inr sg
           \<and> private_key sg = replicate 64 CHR ''1'' \<and> chain_id sg = 137
           \<and> get_chain_id sg = 137 \<and> address sg = 1)"
proof -
  let ?fk = "\<lambda>k::string. if length k = 64 then Inr 1 else (Inl (ValueError ''bad key'') :: error + 160 word)"
  have k: "?fk (replicate 64 CHR ''1'') = Inr 1" by simp
  from Signer_init_mandatory [of ?fk None "replicate 64 CHR ''1''" 1 137] k
  show ?thesis by blast
qed

section \<open>Properties of the authentication message\<close>

lemma length_be_bytes: "length (be_bytes n x) = n"
  by (induction n arbitrary: x) simp_all

lemma length_word_bytes32: "length (word_bytes32 w) = 32"
  by (simp add: word_bytes32_def length_be_bytes)

lemma length_sig_bytes: "length (sig_bytes rsv) = 65"
  by (cases rsv) (simp add: sig_bytes_def length_word_bytes32)

lemma length_bytes_hex: "length (bytes_hex bs) = 2 * length bs"
  by (induction bs) (simp_all add: bytes_hex_def byte_hex_def)

lemma bytes_hex_all_hex: "list_all is_hex (bytes_hex bs)"
proof (induction bs)
  case Nil
  then show ?case by (simp add: bytes_hex_def)
next
  case (Cons b bs)
  have "is_hex (hex_digit n)" for n
    using hex_digit_is_hex [of n] by (auto simp: is_hex_def)
  with Cons show ?case by (simp add: bytes_hex_def byte_hex_def)
qed

subsection \<open>The digest text is read back as the digest\<close>

lemma hex_val_table: "\<forall>k \<in> set [0..<16]. hex_val (''0123456789abcdef'' ! k) = Some k"
  by code_simp

lemma hex_val_hex_digit: "hex_val (hex_digit n) = Some (n mod 16)"
proof -
  have "n mod 16 \<in> set [0..<16]" by simp
  with hex_val_table show ?thesis unfolding hex_digit_def by blast
qed

lemma unhexlify_bytes_hex: "unhexlify (bytes_hex bs) = Some bs"
proof (induction bs)
  case Nil
  then show ?case by (simp add: bytes_hex_def)
next
  case (Cons b bs)
  have "unat b < 256" using unsigned_less [of b] by simp
  then have "unat b div 16 mod 16 = unat b div 16" by simp
  then have e: "16 * (unat b div 16 mod 16) + unat b mod 16 = unat b" by simp
  have "(of_nat (16 * (unat b div 16 mod 16) + unat b mod 16) :: byte) = of_nat (unat b)"
    by (simp only: e)
  then have b: "(of_nat (16 * (unat b div 16 mod 16) + unat b mod 16) :: byte) = b"
    by simp
  have "unhexlify (bytes_hex (b # bs)) =
          Some (of_nat (16 * (unat b div 16 mod 16) + unat b mod 16) # bs)"
    using Cons
    by (simp add: bytes_hex_def byte_hex_def hex_val_hex_digit del: of_nat_add of_nat_mult)
  then show ?case by (simp only: b)
qed

lemma hex_digit_not_X: "hex_digit n \<noteq> CHR ''X''"
  using hex_digit_is_hex [of n] by auto

lemma bytes_hex_not_prefixed_X: "\<not> startswith (bytes_hex bs) ''0X''"
proof (cases bs)
  case Nil
  then show ?thesis by (simp add: bytes_hex_def startswith_def)
next
  case (Cons b r)
  then show ?thesis
    by (simp add: bytes_hex_def byte_hex_def startswith_def hex_digit_not_X)
qed

lemma hexstr_to_bytes_bytes_hex: "hexstr_to_bytes (bytes_hex bs) = Some bs"
  by (simp add: hexstr_to_bytes_def bytes_hex_not_prefixed bytes_hex_not_prefixed_X
      length_bytes_hex unhexlify_bytes_hex)

lemma hexstr_to_bytes_0x_bytes_hex: "hexstr_to_bytes (''0x'' @ bytes_hex bs) = Some bs"
  by (simp add: hexstr_to_bytes_def startswith_def length_bytes_hex unhexlify_bytes_hex)

lemma hexstr_to_bytes_prepend_zx: "hexstr_to_bytes (prepend_zx (bytes_hex bs)) = Some bs"
  using hexstr_to_bytes_0x_bytes_hex [of bs]
  by (simp add: prepend_zx_def hexstr_to_bytes_bytes_hex del: take_Cons_numeral)

lemma take_2_0x: "take 2 s = ''0x'' \<longleftrightarrow> startswith s ''0x''"
  by (simp add: startswith_def numeral_2_eq_2)

lemma prepend_zx_hexbytes_hex:
  "1 < length bs \<Longrightarrow> prepend_zx (hexbytes_hex hp bs) = ''0x'' @ bytes_hex bs"
  using bytes_hex_not_prefixed [of bs]
  by (auto simp: prepend_zx_def hexbytes_hex_def length_bytes_hex take_2_0x startswith_0x_iff)

lemma sign_digest:
  "length d = 32 \<Longrightarrow>
   sign hp ecdsa sg (prepend_zx (bytes_hex d)) =
     Inr (hexbytes_hex hp (sig_bytes (ecdsa (private_key sg) d)))"
  by (simp add: sign_def unsafe_sign_hash_def hexstr_to_bytes_prepend_zx)

subsection \<open>The two structures, member by member\<close>

lemma encode_members_ClobAuth:
  "0 \<le> nonce \<Longrightarrow> nonce < 2 ^ 256 \<Longrightarrow>
   encode_members keccak (snd (ClobAuth addr ts nonce msg)) =
     Inr (be_bytes 32 (unat addr) @ word_bytes32 (keccak (utf8 ts))
          @ be_bytes 32 (nat nonce) @ word_bytes32 (keccak (utf8 msg)))"
  by (simp add: ClobAuth_def encode_member_def)

lemma encode_members_domain:
  "0 \<le> cid \<Longrightarrow> cid < 2 ^ 256 \<Longrightarrow>
   encode_members keccak (snd (get_clob_auth_domain cid)) =
     Inr (word_bytes32 (keccak (utf8 ''ClobAuthDomain''))
          @ word_bytes32 (keccak (utf8 ''1'')) @ be_bytes 32 (nat cid))"
  by (simp add: get_clob_auth_domain_def make_domain_def encode_member_def
      CLOB_DOMAIN_NAME_def CLOB_VERSION_def)

lemma type_hash_ClobAuth:
  "type_hash keccak (ClobAuth addr ts nonce msg) = spec_typeHash_AuthStruct keccak"
  by (simp add: type_hash_def encode_type_def ClobAuth_def type_name_def
      spec_typeHash_AuthStruct_def)

lemma type_hash_domain:
  "type_hash keccak (get_clob_auth_domain cid) = spec_typeHash_Domain keccak"
  by (simp add: type_hash_def encode_type_def get_clob_auth_domain_def make_domain_def
      type_name_def spec_typeHash_Domain_def)

lemma hash_struct_ClobAuth:
  "0 \<le> nonce \<Longrightarrow> nonce < 2 ^ 256 \<Longrightarrow>
   hash_struct keccak (ClobAuth addr ts nonce MSG_TO_SIGN)
     = Inr (spec_hashStruct keccak addr ts nonce)"
  by (simp add: hash_struct_def encode_members_ClobAuth type_hash_ClobAuth
      spec_hashStruct_def MSG_TO_SIGN_def)

lemma hash_struct_domain:
  "0 \<le> cid \<Longrightarrow> cid < 2 ^ 256 \<Longrightarrow>
   hash_struct keccak (get_clob_auth_domain cid) = Inr (spec_domainSeparator keccak cid)"
  by (simp add: hash_struct_def encode_members_domain type_hash_domain
      spec_domainSeparator_def)

lemma hash_struct_ClobAuth_overflow:
  "\<not> (0 \<le> nonce \<and> nonce < 2 ^ 256) \<Longrightarrow>
   hash_struct keccak (ClobAuth addr ts nonce msg) = Inl OverflowError"
  by (simp add: hash_struct_def ClobAuth_def encode_member_def)

lemma hash_struct_domain_overflow:
  "\<not> (0 \<le> cid \<and> cid < 2 ^ 256) \<Longrightarrow>
   hash_struct keccak (get_clob_auth_domain cid) = Inl OverflowError"
  by (simp add: hash_struct_def get_clob_auth_domain_def make_domain_def encode_member_def)

subsection \<open>The value returned\<close>

lemma sign_clob_auth_message_in_range:
  assumes "0 \<le> nonce" "nonce < 2 ^ 256" "0 \<le> chain_id sg" "chain_id sg < 2 ^ 256"
  shows "sign_clob_auth_message hp keccak ecdsa sg ts nonce =
           Inr (''0x'' @ bytes_hex (sig_bytes
                  (ecdsa (private_key sg) (spec_digest keccak sg ts nonce))))"
proof -
  let ?sb = "[0x19, 0x01] @ word_bytes32 (spec_domainSeparator keccak (chain_id sg))
                @ word_bytes32 (spec_hashStruct keccak (account sg) (str_int ts) nonce)"
  have sb: "signable_bytes keccak (ClobAuth (address sg) (str_int ts) nonce MSG_TO_SIGN)
              (get_clob_auth_domain (get_chain_id sg)) = Inr ?sb"
    using assms
    by (simp add: signable_bytes_def hash_struct_domain hash_struct_ClobAuth address_def
        get_chain_id_def)
  have d: "word_bytes32 (keccak ?sb) = spec_digest keccak sg ts nonce"
    by (simp add: spec_digest_def)
  have sg: "sign hp ecdsa sg (prepend_zx (bytes_hex (spec_digest keccak sg ts nonce))) =
          Inr (hexbytes_hex hp (sig_bytes
                 (ecdsa (private_key sg) (spec_digest keccak sg ts nonce))))"
    by (rule sign_digest) (simp add: spec_digest_def length_word_bytes32)
  show ?thesis
    unfolding sign_clob_auth_message_def Let_def sb
    by (simp only: sum.case d sg prepend_zx_hexbytes_hex length_sig_bytes)
qed

lemma sign_clob_auth_message_out_of_range:
  assumes "\<not> (0 \<le> nonce \<and> nonce < 2 ^ 256 \<and> 0 \<le> chain_id sg \<and> chain_id sg < 2 ^ 256)"
  shows "sign_clob_auth_message hp keccak ecdsa sg ts nonce = Inl OverflowError"
proof (cases "0 \<le> chain_id sg \<and> chain_id sg < 2 ^ 256")
  case True
  with assms have n: "\<not> (0 \<le> nonce \<and> nonce < 2 ^ 256)" by blast
  from True have "hash_struct keccak (get_clob_auth_domain (get_chain_id sg))
                    = Inr (spec_domainSeparator keccak (chain_id sg))"
    by (simp add: hash_struct_domain get_chain_id_def)
  then show ?thesis
    by (simp add: sign_clob_auth_message_def signable_bytes_def
        hash_struct_ClobAuth_overflow [OF n])
next
  case False
  then show ?thesis
    by (simp add: sign_clob_auth_message_def signable_bytes_def get_chain_id_def
        hash_struct_domain_overflow)
qed

text \<open>
  The domains of chain id 137 and of chain id 1 differ in their encoded members, that is,
  in what is hashed into the domain separator.
\<close>

lemma domain_members_differ_137_1:
  "encode_members keccak (snd (get_clob_auth_domain 137))
     \<noteq> encode_members keccak (snd (get_clob_auth_domain 1))"
proof -
  have "be_bytes 32 137 \<noteq> be_bytes 32 1" by code_simp
  then show ?thesis by (simp add: encode_members_domain)
qed

text \<open>
  C2. For a nonce and a chain id that have a 32-byte encoding, the digest handed to the
  signing primitive is the Keccak-256 of \<^verbatim>\<open>0x1901\<close>, the domain separator and the hash
  of the authentication structure, and that hash is taken over the type hash, the address
  left-padded to 32 bytes, the hash of the decimal timestamp, the nonce as 32 bytes
  big-endian and the hash of the message, in this order.
\<close>

theorem sign_clob_auth_message_digest:
  assumes "0 \<le> nonce" and "nonce < 2 ^ 256"
    and "0 \<le> chain_id sg" and "chain_id sg < 2 ^ 256"
  shows "sign_clob_auth_message hp keccak ecdsa sg timestamp nonce =
           Inr (''0x'' @ bytes_hex (sig_bytes (ecdsa (private_key sg)
              (word_bytes32 (keccak ([0x19, 0x01]
                 @ word_bytes32 (spec_domainSeparator keccak (chain_id sg))
                 @ word_bytes32
                     (spec_hashStruct keccak (account sg) (str_int timestamp) nonce)))))))"
  using sign_clob_auth_message_in_range [OF assms, of hp keccak ecdsa timestamp]
  by (simp only: spec_digest_def)

theorem sign_clob_auth_message_digest_witness:
  "(0::int) \<le> 1 \<and> (1::int) < 2 ^ 256
   \<and> 0 \<le> chain_id \<lparr>private_key = ''k'', account = 5, chain_id = 137\<rparr>
   \<and> chain_id \<lparr>private_key = ''k'', account = 5, chain_id = 137\<rparr> < 2 ^ 256
   \<and> sign_clob_auth_message False (\<lambda>bs. of_nat (length bs))
        (\<lambda>k d. (of_nat (length d), 2, 27))
        \<lparr>private_key = ''k'', account = 5, chain_id = 137\<rparr> 1700000000 1 =
      Inr (''0x'' @ bytes_hex (sig_bytes ((\<lambda>k d. (of_nat (length d), 2, 27))
              (private_key \<lparr>private_key = ''k'', account = 5, chain_id = 137\<rparr>)
              (word_bytes32 ((\<lambda>bs. of_nat (length bs)) ([0x19, 0x01]
                 @ word_bytes32 (spec_domainSeparator (\<lambda>bs. of_nat (length bs))
                     (chain_id \<lparr>private_key = ''k'', account = 5, chain_id = 137\<rparr>))
                 @ word_bytes32 (spec_hashStruct (\<lambda>bs. of_nat (length bs))
                     (account \<lparr>private_key = ''k'', account = 5, chain_id = 137\<rparr>)
                     (str_int 1700000000) 1)))))))"
proof -
  let ?sg = "\<lparr>private_key = ''k'', account = 5 :: 160 word, chain_id = 137\<rparr>"
  have a: "(0::int) \<le> 1" and b: "(1::int) < 2 ^ 256" by simp_all
  have c: "0 \<le> chain_id ?sg" and d: "chain_id ?sg < 2 ^ 256" by simp_all
  from sign_clob_auth_message_digest [OF a b c d, of False "\<lambda>bs. of_nat (length bs)"
         "\<lambda>k d. (of_nat (length d), 2, 27)" 1700000000] a b c d
  show ?thesis by blast
qed

text \<open>
  C5. Whenever \<^verbatim>\<open>sign_clob_auth_message\<close> returns, the value is \<^verbatim>\<open>0x\<close> followed by 130
  hex digits, and it returns for every nonce and chain id that have a 32-byte encoding.
\<close>

theorem sign_clob_auth_message_shape:
  "(0 \<le> nonce \<and> nonce < 2 ^ 256 \<and> 0 \<le> chain_id sg \<and> chain_id sg < 2 ^ 256 \<longrightarrow>
      (\<exists>sig. sign_clob_auth_message hp keccak ecdsa sg timestamp nonce = Inr sig))
   \<and> (\<forall>sig. sign_clob_auth_message hp keccak ecdsa sg timestamp nonce = Inr sig \<longrightarrow>
         length sig = 132 \<and> take 2 sig = ''0x'' \<and> list_all is_hex (drop 2 sig))"
proof (cases "0 \<le> nonce \<and> nonce < 2 ^ 256 \<and> 0 \<le> chain_id sg \<and> chain_id sg < 2 ^ 256")
  case True
  then have "sign_clob_auth_message hp keccak ecdsa sg timestamp nonce =
           Inr (''0x'' @ bytes_hex (sig_bytes
                  (ecdsa (private_key sg) (spec_digest keccak sg timestamp nonce))))"
    by (simp add: sign_clob_auth_message_in_range)
  then show ?thesis
    by (auto simp: length_bytes_hex length_sig_bytes bytes_hex_all_hex)
next
  case False
  then have "sign_clob_auth_message hp keccak ecdsa sg timestamp nonce = Inl OverflowError"
    by (rule sign_clob_auth_message_out_of_range)
  with False show ?thesis by simp
qed

theorem sign_clob_auth_message_shape_witness:
  "(0::int) \<le> 1 \<and> (1::int) < 2 ^ 256
   \<and> 0 \<le> chain_id \<lparr>private_key = ''k'', account = 5, chain_id = 137\<rparr>
   \<and> chain_id \<lparr>private_key = ''k'', account = 5, chain_id = 137\<rparr> < 2 ^ 256
   \<and> (\<exists>sig. sign_clob_auth_message True (\<lambda>bs. of_nat (length bs))
               (\<lambda>k d. (of_nat (length d), 2, 27))
               \<lparr>private_key = ''k'', account = 5, chain_id = 137\<rparr> 1700000000 1 = Inr sig
           \<and> length sig = 132 \<and> take 2 sig = ''0x'' \<and> list_all is_hex (drop 2 sig))"
proof -
  let ?sg = "\<lparr>private_key = ''k'', account = 5 :: 160 word, chain_id = 137\<rparr>"
  have r: "(0::int) \<le> 1 \<and> (1::int) < 2 ^ 256 \<and> 0 \<le> chain_id ?sg \<and> chain_id ?sg < 2 ^ 256"
    by simp
  from sign_clob_auth_message_shape [of 1 ?sg True "\<lambda>bs. of_nat (length bs)"
         "\<lambda>k d. (of_nat (length d), 2, 27)" 1700000000] r
  show ?thesis by blast
qed

section \<open>Properties of the balance\<close>

lemma is_digit_not_special:
  "is_digit c \<Longrightarrow> \<not> is_space c \<and> c \<noteq> CHR ''-'' \<and> c \<noteq> CHR ''+'' \<and> c \<noteq> CHR ''_''"
  by (auto simp: is_digit_def is_space_def)

lemma sign_not_space: "\<not> is_space CHR ''-''" "\<not> is_space CHR ''+''"
  by (simp_all add: is_space_def)

lemma valid_digits_all_digits: "ds \<noteq> [] \<Longrightarrow> list_all is_digit ds \<Longrightarrow> valid_digits ds"
  by (induction ds rule: valid_digits.induct) (auto dest: is_digit_not_special)

lemma foldl_dec_value:
  "foldl (\<lambda>a c. 10 * a + digit_val c) a ds = a * 10 ^ length ds + dec_value ds"
  by (induction ds arbitrary: a) (simp_all add: algebra_simps)

lemma scan_all_digits:
  assumes "list_all is_digit ds"
  shows "takeWhile (\<lambda>c. is_digit c \<or> c = CHR ''_'') ds = ds"
    and "dropWhile (\<lambda>c. is_digit c \<or> c = CHR ''_'') ds = []"
    and "filter is_digit ds = ds"
  using assms by (induction ds) auto

lemma py_int_digits:
  assumes "ds \<noteq> []" and "list_all is_digit ds"
  shows "py_int ds = Inr (int (dec_value ds))"
proof -
  from assms obtain c r where ds: "ds = c # r" and c: "is_digit c"
    by (cases ds) auto
  have t: "dropWhile is_space ds = ds"
    using c is_digit_not_special [of c] by (simp add: ds)
  have sgn: "c \<noteq> CHR ''-''" "c \<noteq> CHR ''+''"
    using c is_digit_not_special [of c] by auto
  have neg: "(case ds of [] \<Rightarrow> False | c # r \<Rightarrow> c = CHR ''-'') = False"
    using sgn by (simp add: ds)
  have u: "(case ds of [] \<Rightarrow> ds
            | c # r \<Rightarrow> if c = CHR ''-'' \<or> c = CHR ''+'' then r else ds) = ds"
    using sgn by (simp add: ds)
  show ?thesis
    unfolding py_int_def t Let_def neg u
    using assms
    by (simp add: scan_all_digits valid_digits_all_digits foldl_dec_value)
qed

lemma py_int_signed:
  assumes "ds \<noteq> []" and "list_all is_digit ds"
  shows "py_int (CHR ''-'' # ds) = Inr (- int (dec_value ds))"
    and "py_int (CHR ''+'' # ds) = Inr (int (dec_value ds))"
  using assms
  by (simp_all add: py_int_def sign_not_space scan_all_digits valid_digits_all_digits
      foldl_dec_value)


subsection \<open>The text that \<^verbatim>\<open>str\<close> writes is read back by \<^verbatim>\<open>int\<close>\<close>

lemma dec_digit_props: "is_digit (dec_digit k) \<and> digit_val (dec_digit k) = k mod 10"
proof -
  have "\<forall>j \<in> set [0..<10].
          is_digit (''0123456789'' ! j) \<and> digit_val (''0123456789'' ! j) = j"
    by (simp add: is_digit_def digit_val_def upt_rec numeral_nat)
  moreover have "k mod 10 \<in> set [0..<10]" by simp
  ultimately show ?thesis unfolding dec_digit_def by blast
qed

lemma dec_value_snoc: "dec_value (ds @ [c]) = 10 * dec_value ds + digit_val c"
  by (induction ds) (simp_all add: algebra_simps)

lemma str_nat_digits: "str_nat n \<noteq> [] \<and> list_all is_digit (str_nat n)"
proof (induction n rule: str_nat.induct)
  case (1 n)
  show ?case
  proof (cases "n < 10")
    case True
    then show ?thesis by (simp add: str_nat.simps [of n] dec_digit_props)
  next
    case False
    with "1" show ?thesis by (simp add: str_nat.simps [of n] dec_digit_props)
  qed
qed

lemma dec_value_str_nat: "dec_value (str_nat n) = n"
proof (induction n rule: str_nat.induct)
  case (1 n)
  show ?case
  proof (cases "n < 10")
    case True
    then show ?thesis by (simp add: str_nat.simps [of n] dec_digit_props)
  next
    case False
    with "1" show ?thesis
      by (simp add: str_nat.simps [of n] dec_value_snoc dec_digit_props)
  qed
qed

lemma py_int_str_int: "py_int (str_int n) = Inr n"
proof (cases "n < 0")
  case True
  then show ?thesis
    using py_int_signed(1) [of "str_nat (nat (- n))"]
    by (simp add: str_int_def str_nat_digits dec_value_str_nat)
next
  case False
  then show ?thesis
    using py_int_digits [of "str_nat (nat n)"]
    by (simp add: str_int_def str_nat_digits dec_value_str_nat)
qed

text \<open>The decimal text of every integer is parsed to that integer and divided.\<close>

lemma parse_balance_str_int:
  "parse_balance truediv (BStr (str_int n)) = truediv (PInt n) 1000000"
  by (simp add: parse_balance_def py_int_str_int)



end
